theory Spec2Isabelle
  imports Main "HOL-Library.Multiset"
begin

section \<open>The Risk dice simulator (risk-dice-simulator.py)\<close>

text \<open>
  A shallow embedding of the simulator's core: the loss calculator, the table of
  precomputed maximal rolls, the round resolver, the battle loop and the trial loop of
  \<open>main\<close>. Python's unbounded integers are \<open>int\<close>. The two module globals that
  \<open>main\<close> sets before any battle runs, \<open>MAX_DEFENDERS\<close> and \<open>PRECOMPUTED_ROLLS\<close>, are
  passed explicitly to every function that reads them. The wall clock
  (\<open>time.time()\<close>) and the debug output are left out: no modelled value depends on them.
\<close>

subsection \<open>Errors and the random generator\<close>

text \<open>
  The two exceptions the code could meet: \<open>random.randint(a, b)\<close> raises
  \<open>ValueError\<close> on an empty range, and indexing a list out of range raises
  \<open>IndexError\<close>.
\<close>

datatype error = ValueError | IndexError

text \<open>
  The process-wide generator of Python's \<open>random\<close> module. Its state is the sequence
  of raw draws still to come (\<open>draws\<close>) and the number of draws made so far
  (\<open>calls\<close>). \<open>randint a b\<close> turns the next raw draw into a value of the closed range
  \<open>[a, b]\<close>; every sequence of outcomes arises from some \<open>draws\<close>.
\<close>

record rng =
  draws :: "nat \<Rightarrow> nat"
  calls :: nat

definition randint :: "int \<Rightarrow> int \<Rightarrow> rng \<Rightarrow> error + (int \<times> rng)" where
  "randint a b g =
     (if b < a then Inl ValueError
      else Inr (a + int (draws g (calls g) mod nat (b - a + 1)), g\<lparr>calls := calls g + 1\<rparr>))"

text \<open>
  List indexing \<open>xs[i]\<close> as Python does it: an index from \<open>-len(xs)\<close> up to \<open>-1\<close>
  counts back from the end, one from \<open>0\<close> up to \<open>len(xs) - 1\<close> counts from the
  front, and any other raises \<open>IndexError\<close>.
\<close>

definition getitem :: "'a list \<Rightarrow> int \<Rightarrow> error + 'a" where
  "getitem xs i =
     (if 0 \<le> i \<and> i < int (length xs) then Inr (xs ! nat i)
      else if i < 0 \<and> - int (length xs) \<le> i then Inr (xs ! nat (int (length xs) + i))
      else Inl IndexError)"

subsection \<open>Constants\<close>

definition MAX_ATTACKERS :: int where
  "MAX_ATTACKERS = 3"

subsection \<open>calculate_losses\<close>

text \<open>
  \<open>list.sort(reverse=True)\<close> sorts the list in place into descending order. On integers
  equal elements cannot be told apart, so the result is the ascending sort reversed.
\<close>

definition sort_reverse :: "int list \<Rightarrow> int list" where
  "sort_reverse xs = rev (sort xs)"

text \<open>
  The \<open>for i in range(min(len(attacker_rolls), len(defender_rolls)))\<close> loop of
  \<open>calculate_losses\<close>; the accumulator is \<open>(attacker_losses, defender_losses)\<close>.
\<close>

definition compare_dice :: "int list \<Rightarrow> int list \<Rightarrow> int \<times> int" where
  "compare_dice attacker_rolls defender_rolls =
     fold (\<lambda>i (attacker_losses, defender_losses).
             if attacker_rolls ! i > defender_rolls ! i
             then (attacker_losses, defender_losses + 1)
             else (attacker_losses + 1, defender_losses))
          [0 ..< min (length attacker_rolls) (length defender_rolls)] (0, 0)"

text \<open>
  \<open>calculate_losses\<close> sorts both argument lists in place before comparing them, so the
  model returns, beside the pair of losses, the contents of the two argument lists after
  the call.
\<close>

definition calculate_losses ::
    "int list \<Rightarrow> int list \<Rightarrow> (int \<times> int) \<times> int list \<times> int list" where
  "calculate_losses attacker_rolls defender_rolls =
     (let attacker_rolls = sort_reverse attacker_rolls;
          defender_rolls = sort_reverse defender_rolls
      in (compare_dice attacker_rolls defender_rolls, attacker_rolls, defender_rolls))"

text \<open>
  The rule as the specification words it: sort both sequences descending, pair the i-th
  highest attacker die with the i-th highest defender die, the defender loses a troop
  when the attacker's die is strictly greater, otherwise the attacker does; unpaired
  dice have no effect.
\<close>

definition reference_losses :: "int list \<Rightarrow> int list \<Rightarrow> int \<times> int" where
  "reference_losses attacker_rolls defender_rolls =
     (let pairs = zip (sort_reverse attacker_rolls) (sort_reverse defender_rolls)
      in (int (length (filter (\<lambda>(a, d). \<not> d < a) pairs)),
          int (length (filter (\<lambda>(a, d). d < a) pairs))))"

subsection \<open>precompute_max_dice_rolls\<close>

text \<open>
  The nested \<open>for ... in range(1, 7)\<close> loops, each a fold over \<open>[1..6]\<close>; the innermost
  body appends one pair of losses to \<open>PRECOMPUTED_ROLLS\<close>. The result is the list after
  the call.
\<close>

definition precompute_max_dice_rolls :: "int \<Rightarrow> (int \<times> int) list \<Rightarrow> (int \<times> int) list" where
  "precompute_max_dice_rolls MAX_DEFENDERS PRECOMPUTED_ROLLS =
     fold (\<lambda>a1. fold (\<lambda>a2. fold (\<lambda>a3. fold (\<lambda>d1. fold (\<lambda>d2.
       if MAX_DEFENDERS = 3
       then fold (\<lambda>d3 rolls. rolls @ [fst (calculate_losses [a1, a2, a3] [d1, d2, d3])]) [1..6]
       else (\<lambda>rolls. rolls @ [fst (calculate_losses [a1, a2, a3] [d1, d2])]))
     [1..6]) [1..6]) [1..6]) [1..6]) [1..6] PRECOMPUTED_ROLLS"

text \<open>
  The table as the specification words it: the full Cartesian product of three attacker
  dice and \<open>n\<close> defender dice, each in \<open>1..6\<close>, in enumeration order (the first die
  varies slowest), each combination mapped to its pair of losses.
\<close>

definition dice_combinations :: "nat \<Rightarrow> int list list" where
  "dice_combinations n = product_lists (replicate n [1..6])"

definition outcome_table :: "nat \<Rightarrow> (int \<times> int) list" where
  "outcome_table n =
     map (\<lambda>c. fst (calculate_losses (take 3 c) (drop 3 c))) (dice_combinations (3 + n))"

subsection \<open>roll_one_die and roll_dice\<close>

definition roll_one_die :: "rng \<Rightarrow> error + (int \<times> rng)" where
  "roll_one_die g = randint 1 6 g"

text \<open>The comprehension \<open>[roll_one_die() for _ in range(n)]\<close>.\<close>

fun roll_n_dice :: "nat \<Rightarrow> rng \<Rightarrow> error + (int list \<times> rng)" where
  "roll_n_dice 0 g = Inr ([], g)"
| "roll_n_dice (Suc n) g =
     (case roll_one_die g of
        Inl e \<Rightarrow> Inl e
      | Inr (x, g1) \<Rightarrow>
          (case roll_n_dice n g1 of
             Inl e \<Rightarrow> Inl e
           | Inr (xs, g2) \<Rightarrow> Inr (x # xs, g2)))"

text \<open>
  \<open>roll_dice\<close> returns \<open>(attacker_losses, defender_losses, is_max_roll)\<close> and the
  generator after the round. \<open>range\<close> of a negative number is empty, hence \<open>nat\<close>.
\<close>

definition roll_dice ::
    "int \<Rightarrow> (int \<times> int) list \<Rightarrow> int \<Rightarrow> int \<Rightarrow> rng \<Rightarrow> error + ((int \<times> int \<times> bool) \<times> rng)" where
  "roll_dice MAX_DEFENDERS PRECOMPUTED_ROLLS attacking defending g =
     (let attackers = min attacking MAX_ATTACKERS;
          defenders = min defending MAX_DEFENDERS;
          is_max_roll = (attackers \<ge> MAX_ATTACKERS \<and> defenders \<ge> MAX_DEFENDERS)
      in if length PRECOMPUTED_ROLLS > 0 \<and> is_max_roll
         then (case randint 0 (int (length PRECOMPUTED_ROLLS) - 1) g of
                 Inl e \<Rightarrow> Inl e
               | Inr (k, g1) \<Rightarrow>
                   (case getitem PRECOMPUTED_ROLLS k of
                      Inl e \<Rightarrow> Inl e
                    | Inr (attacker_losses, defender_losses) \<Rightarrow>
                        Inr ((attacker_losses, defender_losses, is_max_roll), g1)))
         else (case roll_n_dice (nat attackers) g of
                 Inl e \<Rightarrow> Inl e
               | Inr (attacker_rolls, g1) \<Rightarrow>
                   (case roll_n_dice (nat defenders) g1 of
                      Inl e \<Rightarrow> Inl e
                    | Inr (defender_rolls, g2) \<Rightarrow>
                        (case fst (calculate_losses attacker_rolls defender_rolls) of
                           (attacker_losses, defender_losses) \<Rightarrow>
                             Inr ((attacker_losses, defender_losses, is_max_roll), g2)))))"

subsection \<open>simulate_battle\<close>

text \<open>The local variables of \<open>simulate_battle\<close> that the loop updates.\<close>

record battle =
  attacking_troops :: int
  defending_troops :: int
  total_attacker_losses :: int
  total_defender_losses :: int
  non_maximum_rolls :: int
  maximum_rolls :: int

definition loop_guard :: "battle \<Rightarrow> bool" where
  "loop_guard b = (attacking_troops b > 1 \<and> defending_troops b > 0)"

text \<open>One pass through the body of the \<open>while\<close> loop. \<open>int(True) = 1\<close>, \<open>int(False) = 0\<close>.\<close>

definition loop_body ::
    "int \<Rightarrow> (int \<times> int) list \<Rightarrow> battle \<times> rng \<Rightarrow> error + (battle \<times> rng)" where
  "loop_body MAX_DEFENDERS PRECOMPUTED_ROLLS s =
     (case s of (b, g) \<Rightarrow>
        (case roll_dice MAX_DEFENDERS PRECOMPUTED_ROLLS (attacking_troops b - 1) (defending_troops b) g of
           Inl e \<Rightarrow> Inl e
         | Inr ((attacker_losses, defender_losses, is_max_roll), g1) \<Rightarrow>
             Inr (\<lparr>attacking_troops = attacking_troops b - attacker_losses,
                   defending_troops = defending_troops b - defender_losses,
                   total_attacker_losses = total_attacker_losses b + attacker_losses,
                   total_defender_losses = total_defender_losses b + defender_losses,
                   non_maximum_rolls = non_maximum_rolls b + (1 - (if is_max_roll then 1 else 0)),
                   maximum_rolls = maximum_rolls b + (if is_max_roll then 1 else 0)\<rparr>, g1)))"

text \<open>
  The \<open>while\<close> loop. With an arbitrary table a round may lose no troop and the loop may
  run forever, so the loop is a partial function: \<open>None\<close> is not returning.
\<close>

partial_function (option) battle_loop ::
    "int \<Rightarrow> (int \<times> int) list \<Rightarrow> battle \<times> rng \<Rightarrow> (error + (battle \<times> rng)) option" where
  "battle_loop MAX_DEFENDERS PRECOMPUTED_ROLLS s =
     (if loop_guard (fst s)
      then (case loop_body MAX_DEFENDERS PRECOMPUTED_ROLLS s of
              Inl e \<Rightarrow> Some (Inl e)
            | Inr s' \<Rightarrow> battle_loop MAX_DEFENDERS PRECOMPUTED_ROLLS s')
      else Some (Inr s))"

declare battle_loop.simps [code]

text \<open>The state after at most \<open>n\<close> iterations of the loop: its trace.\<close>

fun rounds :: "int \<Rightarrow> (int \<times> int) list \<Rightarrow> nat \<Rightarrow> battle \<times> rng \<Rightarrow> error + (battle \<times> rng)" where
  "rounds MAX_DEFENDERS PRECOMPUTED_ROLLS 0 s = Inr s"
| "rounds MAX_DEFENDERS PRECOMPUTED_ROLLS (Suc n) s =
     (if loop_guard (fst s)
      then (case loop_body MAX_DEFENDERS PRECOMPUTED_ROLLS s of
              Inl e \<Rightarrow> Inl e
            | Inr s' \<Rightarrow> rounds MAX_DEFENDERS PRECOMPUTED_ROLLS n s')
      else Inr s)"

definition initial_battle :: "int \<Rightarrow> int \<Rightarrow> battle" where
  "initial_battle attacking defending =
     \<lparr>attacking_troops = attacking, defending_troops = defending,
      total_attacker_losses = 0, total_defender_losses = 0,
      non_maximum_rolls = 0, maximum_rolls = 0\<rparr>"

text \<open>
  \<open>simulate_battle\<close> returns \<open>(total_attacker_losses, total_defender_losses,
  maximum_rolls, non_maximum_rolls)\<close>; the elapsed time, its fifth component in the
  source, is a reading of the wall clock and is not modelled.
\<close>

definition simulate_battle ::
    "int \<Rightarrow> (int \<times> int) list \<Rightarrow> int \<Rightarrow> int \<Rightarrow> rng
       \<Rightarrow> (error + ((int \<times> int \<times> int \<times> int) \<times> rng)) option" where
  "simulate_battle MAX_DEFENDERS PRECOMPUTED_ROLLS attacking defending g =
     (case battle_loop MAX_DEFENDERS PRECOMPUTED_ROLLS (initial_battle attacking defending, g) of
        None \<Rightarrow> None
      | Some (Inl e) \<Rightarrow> Some (Inl e)
      | Some (Inr (b, g1)) \<Rightarrow>
          Some (Inr ((total_attacker_losses b, total_defender_losses b,
                      maximum_rolls b, non_maximum_rolls b), g1)))"

subsection \<open>main\<close>

text \<open>The parsed command line, as far as the simulation reads it.\<close>

record args =
  args_attacking_troops :: int
  args_defending_troops :: int
  args_capital :: bool
  args_trials :: int
  args_random_seed :: int
  args_no_precomputed_rolls :: bool

text \<open>
  A trial record without its elapsed time: attacker losses, defender losses,
  difference, maximal rounds, non-maximal rounds.
\<close>

type_synonym trial_record = "int \<times> int \<times> int \<times> int \<times> int"

text \<open>The \<open>for trial in range(args.trials)\<close> loop; it returns the records written.\<close>

fun trial_loop ::
    "int \<Rightarrow> (int \<times> int) list \<Rightarrow> int \<Rightarrow> int \<Rightarrow> nat \<Rightarrow> rng
       \<Rightarrow> (error + (trial_record list \<times> rng)) option" where
  "trial_loop MAX_DEFENDERS PRECOMPUTED_ROLLS attacking defending 0 g = Some (Inr ([], g))"
| "trial_loop MAX_DEFENDERS PRECOMPUTED_ROLLS attacking defending (Suc n) g =
     (case simulate_battle MAX_DEFENDERS PRECOMPUTED_ROLLS attacking defending g of
        None \<Rightarrow> None
      | Some (Inl e) \<Rightarrow> Some (Inl e)
      | Some (Inr ((attacker_total, defender_total, max_rolls, non_max_rolls), g1)) \<Rightarrow>
          (case trial_loop MAX_DEFENDERS PRECOMPUTED_ROLLS attacking defending n g1 of
             None \<Rightarrow> None
           | Some (Inl e) \<Rightarrow> Some (Inl e)
           | Some (Inr (records, g2)) \<Rightarrow>
               Some (Inr ((attacker_total, defender_total,
                           defender_total - attacker_total,
                           max_rolls, non_max_rolls) # records, g2))))"

text \<open>
  \<open>main\<close> after argument parsing. \<open>seed\<close> is \<open>random.seed\<close> of Python's library: the
  generator state a seed determines. \<open>g0\<close> is the state the generator has when the
  process starts, drawn from the operating system's entropy. \<open>MAX_DEFENDERS\<close> starts
  at 2 and \<open>PRECOMPUTED_ROLLS\<close> empty.
\<close>

definition main :: "(int \<Rightarrow> rng) \<Rightarrow> args \<Rightarrow> rng \<Rightarrow> (error + (trial_record list \<times> rng)) option" where
  "main seed a g0 =
     (let MAX_DEFENDERS = (if args_capital a then 3 else 2);
          PRECOMPUTED_ROLLS =
            (if \<not> args_no_precomputed_rolls a
             then precompute_max_dice_rolls MAX_DEFENDERS [] else []);
          g = (if args_random_seed a \<noteq> 0 then seed (args_random_seed a) else g0)
      in trial_loop MAX_DEFENDERS PRECOMPUTED_ROLLS
           (args_attacking_troops a) (args_defending_troops a) (nat (args_trials a)) g)"

subsection \<open>The invariant of the table\<close>

text \<open>
  What the battle loop needs of \<open>PRECOMPUTED_ROLLS\<close>: every entry is a pair of
  non-negative losses that sum to the number of dice pairs of a maximal round.
\<close>

definition valid_table :: "int \<Rightarrow> (int \<times> int) list \<Rightarrow> bool" where
  "valid_table MAX_DEFENDERS PRECOMPUTED_ROLLS =
     list_all (\<lambda>losses. 0 \<le> fst losses \<and> 0 \<le> snd losses
                 \<and> fst losses + snd losses = min 3 MAX_DEFENDERS)
              PRECOMPUTED_ROLLS"

subsection \<open>A generator for concrete runs\<close>

text \<open>A generator state to evaluate the functions on: its raw draws are 8, 12, 16, ...\<close>

definition example_rng :: rng where
  "example_rng = \<lparr>draws = (\<lambda>n. 4 * n + 8), calls = 0\<rparr>"

text \<open>A seeding function to evaluate \<open>main\<close> on.\<close>

definition example_seed :: "int \<Rightarrow> rng" where
  "example_seed s = \<lparr>draws = (\<lambda>n. nat \<bar>s\<bar> + 7 * n), calls = 0\<rparr>"

section \<open>Properties of calculate_losses\<close>

lemma compare_dice_fold:
  "n \<le> length xs \<Longrightarrow> n \<le> length ys \<Longrightarrow>
   fold (\<lambda>i (al, dl). if xs ! i > ys ! i then (al, dl + 1) else (al + 1, dl)) [0 ..< n] (p, q)
   = (p + int (length (filter (\<lambda>(a, d). \<not> d < a) (zip (take n xs) (take n ys)))),
      q + int (length (filter (\<lambda>(a, d). d < a) (zip (take n xs) (take n ys)))))"
proof (induction n)
  case 0
  then show ?case by simp
next
  case (Suc n)
  then have n: "n < length xs" "n < length ys" by simp_all
  have z: "zip (take (Suc n) xs) (take (Suc n) ys)
           = zip (take n xs) (take n ys) @ [(xs ! n, ys ! n)]"
    using n by (simp add: take_Suc_conv_app_nth)
  show ?case using Suc.IH n by (simp add: z)
qed

lemma compare_dice_zip:
  "compare_dice xs ys =
     (int (length (filter (\<lambda>(a, d). \<not> d < a) (zip xs ys))),
      int (length (filter (\<lambda>(a, d). d < a) (zip xs ys))))"
proof -
  have "zip (take (min (length xs) (length ys)) xs) (take (min (length xs) (length ys)) ys)
        = zip xs ys"
    by (metis take_zip length_zip take_all order_refl)
  then show ?thesis
    unfolding compare_dice_def
    using compare_dice_fold [of "min (length xs) (length ys)" xs ys 0 0]
    by simp
qed

lemma filter_split_length:
  "length (filter (\<lambda>(a::int, d). \<not> d < a) ps) + length (filter (\<lambda>(a, d). d < a) ps)
   = length ps"
  by (induction ps) auto

lemma length_sort_reverse: "length (sort_reverse xs) = length xs"
  by (simp add: sort_reverse_def)

text \<open>
  C1. On all integer sequences (so in particular on dice in 1..6) the losses that
  \<open>calculate_losses\<close> returns are those of the reference rule; \<open>[3]\<close> against \<open>[3]\<close>
  costs the attacker one troop and the defender none; and the two losses sum to the
  smaller of the two lengths.
\<close>

theorem calculate_losses_reference:
  "fst (calculate_losses attacker_rolls defender_rolls)
     = reference_losses attacker_rolls defender_rolls
   \<and> fst (calculate_losses [3] [3]) = (1, 0)
   \<and> fst (fst (calculate_losses attacker_rolls defender_rolls))
       + snd (fst (calculate_losses attacker_rolls defender_rolls))
     = int (min (length attacker_rolls) (length defender_rolls))"
proof -
  have a: "fst (calculate_losses attacker_rolls defender_rolls)
           = reference_losses attacker_rolls defender_rolls"
    by (simp add: calculate_losses_def reference_losses_def Let_def compare_dice_zip)
  have b: "fst (calculate_losses [3] [3]) = (1, 0)"
    by (simp add: calculate_losses_def Let_def compare_dice_zip sort_reverse_def)
  have c: "fst (fst (calculate_losses attacker_rolls defender_rolls))
       + snd (fst (calculate_losses attacker_rolls defender_rolls))
     = int (min (length attacker_rolls) (length defender_rolls))"
    using filter_split_length [of "zip (sort_reverse attacker_rolls) (sort_reverse defender_rolls)"]
    by (simp add: calculate_losses_def Let_def compare_dice_zip length_sort_reverse)
  from a b c show ?thesis by blast
qed

lemma mset_sort_reverse: "mset (sort_reverse xs) = mset xs"
  by (simp add: sort_reverse_def)

lemma sorted_sort_reverse: "sorted_wrt (\<ge>) (sort_reverse xs)"
  by (simp add: sort_reverse_def sorted_wrt_rev)

lemma sort_reverse_fixed: "sort_reverse xs = xs \<longleftrightarrow> sorted_wrt (\<ge>) xs"
proof
  assume "sort_reverse xs = xs"
  then show "sorted_wrt (\<ge>) xs" using sorted_sort_reverse [of xs] by simp
next
  assume "sorted_wrt (\<ge>) xs"
  then have "sorted (rev xs)" by (simp add: sorted_wrt_rev)
  then have "sort (rev xs) = rev xs" by (simp add: sorted_sort_id)
  moreover have "sort (rev xs) = sort xs" by (simp add: properties_for_sort)
  ultimately show "sort_reverse xs = xs" by (simp add: sort_reverse_def)
qed

text \<open>
  C8, as the code has it. \<open>calculate_losses\<close> sorts both argument lists in place: after
  the call each list holds the same dice as before (as a multiset) in descending order,
  so the caller sees its lists unchanged exactly when both were already in descending
  order.
\<close>

theorem calculate_losses_sorts_inputs:
  "snd (calculate_losses attacker_rolls defender_rolls)
     = (sort_reverse attacker_rolls, sort_reverse defender_rolls)
   \<and> mset (sort_reverse attacker_rolls) = mset attacker_rolls
   \<and> mset (sort_reverse defender_rolls) = mset defender_rolls
   \<and> sorted_wrt (\<ge>) (sort_reverse attacker_rolls)
   \<and> sorted_wrt (\<ge>) (sort_reverse defender_rolls)
   \<and> (snd (calculate_losses attacker_rolls defender_rolls) = (attacker_rolls, defender_rolls)
        \<longleftrightarrow> sorted_wrt (\<ge>) attacker_rolls \<and> sorted_wrt (\<ge>) defender_rolls)"
  by (simp add: calculate_losses_def Let_def mset_sort_reverse sorted_sort_reverse
      sort_reverse_fixed)

text \<open>
  C8 as stated fails: called on the lists \<open>[1, 2]\<close> and \<open>[3]\<close>, \<open>calculate_losses\<close>
  leaves the first list as \<open>[2, 1]\<close>.
\<close>

theorem calculate_losses_mutates_counterexample:
  "snd (calculate_losses [1, 2] [3]) = ([2, 1], [3])
   \<and> snd (calculate_losses [1, 2] [3]) \<noteq> ([1, 2], [3])"
  by (simp add: calculate_losses_def Let_def sort_reverse_def)

section \<open>The table of precomputed rolls\<close>

lemma fold_snoc_concat:
  "fold (\<lambda>x rolls. rolls @ f x) xs = (\<lambda>rolls. rolls @ concat (map f xs))"
proof
  fix rolls show "fold (\<lambda>x rolls. rolls @ f x) xs rolls = rolls @ concat (map f xs)"
    by (induction xs arbitrary: rolls) simp_all
qed

text \<open>The nested loops over any list of faces \<open>ds\<close>, with two and with three defender dice.\<close>

lemma precompute_standard_general:
  assumes "c \<noteq> 3"
  shows "fold (\<lambda>a1. fold (\<lambda>a2. fold (\<lambda>a3. fold (\<lambda>d1. fold (\<lambda>d2.
       if c = (3::int)
       then fold (\<lambda>d3 rolls. rolls @ [fst (calculate_losses [a1, a2, a3] [d1, d2, d3])]) ds
       else (\<lambda>rolls. rolls @ [fst (calculate_losses [a1, a2, a3] [d1, d2])]))
     ds) ds) ds) ds) ds t
   = t @ map (\<lambda>c. fst (calculate_losses (take 3 c) (drop 3 c)))
           (product_lists (replicate 5 ds))"
  using assms
  by (simp add: fold_snoc_concat numeral_eq_Suc map_concat o_def)

lemma precompute_capital_general:
  "fold (\<lambda>a1. fold (\<lambda>a2. fold (\<lambda>a3. fold (\<lambda>d1. fold (\<lambda>d2.
       if (3::int) = 3
       then fold (\<lambda>d3 rolls. rolls @ [fst (calculate_losses [a1, a2, a3] [d1, d2, d3])]) ds
       else (\<lambda>rolls. rolls @ [fst (calculate_losses [a1, a2, a3] [d1, d2])]))
     ds) ds) ds) ds) ds t
   = t @ map (\<lambda>c. fst (calculate_losses (take 3 c) (drop 3 c)))
           (product_lists (replicate 6 ds))"
  by (simp add: fold_snoc_concat numeral_eq_Suc map_concat o_def)

lemma precompute_standard:
  "c \<noteq> 3 \<Longrightarrow> precompute_max_dice_rolls c t = t @ outcome_table 2"
  unfolding precompute_max_dice_rolls_def outcome_table_def dice_combinations_def
  using precompute_standard_general [of c "[1..6]" t] by simp

lemma precompute_capital:
  "precompute_max_dice_rolls 3 t = t @ outcome_table 3"
  unfolding precompute_max_dice_rolls_def outcome_table_def dice_combinations_def
  using precompute_capital_general [of "[1..6]" t] by simp

lemma length_product_lists_replicate:
  "length (product_lists (replicate n xs)) = length xs ^ n"
  by (induction n)
     (simp_all add: length_concat comp_def sum_list_triv del: length_product_lists)

lemma length_dice_combinations: "length (dice_combinations n) = 6 ^ n"
  by (simp add: dice_combinations_def length_product_lists_replicate)

lemma distinct_dice_combinations: "distinct (dice_combinations n)"
  unfolding dice_combinations_def
  by (rule distinct_product_lists) simp

lemma set_dice_combinations:
  "set (dice_combinations n) = {c. length c = n \<and> set c \<subseteq> {1..6}}"
proof -
  have "list_all2 (\<lambda>x ys. x \<in> set ys) c (replicate n [1..6])
        \<longleftrightarrow> length c = n \<and> set c \<subseteq> {1..6}" for c :: "int list"
  proof (induction n arbitrary: c)
    case 0
    then show ?case by auto
  next
    case (Suc n)
    then show ?case by (cases c) auto
  qed
  then show ?thesis
    by (simp add: dice_combinations_def product_lists_set)
qed

text \<open>
  C2. Run on the empty table, \<open>precompute_max_dice_rolls\<close> leaves exactly the table of
  the specification: entry \<open>k\<close> is \<open>calculate_losses\<close> of the \<open>k\<close>-th combination of
  three attacker and two (standard) or three (capital) defender dice, 7776 and 46656
  entries. The combinations of \<open>n\<close> dice are all lists of \<open>n\<close> values in \<open>1..6\<close>, each
  exactly once.
\<close>

theorem precompute_table:
  "precompute_max_dice_rolls 2 [] = outcome_table 2
   \<and> length (precompute_max_dice_rolls 2 []) = 7776
   \<and> precompute_max_dice_rolls 3 [] = outcome_table 3
   \<and> length (precompute_max_dice_rolls 3 []) = 46656
   \<and> distinct (dice_combinations n)
   \<and> set (dice_combinations n) = {c. length c = n \<and> set c \<subseteq> {1..6}}"
proof -
  have s: "precompute_max_dice_rolls 2 [] = outcome_table 2"
    using precompute_standard [of 2 "[]"] by simp
  have c: "precompute_max_dice_rolls 3 [] = outcome_table 3"
    using precompute_capital [of "[]"] by simp
  have ls: "length (outcome_table 2) = 7776"
    by (simp add: outcome_table_def length_dice_combinations)
  have lc: "length (outcome_table 3) = 46656"
    by (simp add: outcome_table_def length_dice_combinations)
  show ?thesis
    using s c ls lc distinct_dice_combinations [of n] set_dice_combinations [of n] by simp
qed

section \<open>One round: roll_dice\<close>

lemma randint_in_range:
  assumes "a \<le> b"
  shows "\<exists>k g1. randint a b g = Inr (k, g1) \<and> a \<le> k \<and> k \<le> b
           \<and> g1 = g\<lparr>calls := calls g + 1\<rparr>"
proof -
  have "0 < nat (b - a + 1)" using assms by simp
  then have "draws g (calls g) mod nat (b - a + 1) < nat (b - a + 1)"
    by (rule mod_less_divisor)
  then have "int (draws g (calls g) mod nat (b - a + 1)) \<le> b - a" by linarith
  then show ?thesis using assms by (simp add: randint_def)
qed

lemma roll_one_die_in_range:
  "\<exists>x g1. roll_one_die g = Inr (x, g1) \<and> 1 \<le> x \<and> x \<le> 6 \<and> g1 = g\<lparr>calls := calls g + 1\<rparr>"
  unfolding roll_one_die_def using randint_in_range [of 1 6 g] by simp

lemma roll_n_dice_ok:
  "\<exists>xs g1. roll_n_dice n g = Inr (xs, g1) \<and> length xs = n \<and> set xs \<subseteq> {1..6}
            \<and> g1 = g\<lparr>calls := calls g + n\<rparr>"
proof (induction n arbitrary: g)
  case 0
  then show ?case by simp
next
  case (Suc n)
  obtain x g1 where x: "roll_one_die g = Inr (x, g1)" "1 \<le> x" "x \<le> 6"
      "g1 = g\<lparr>calls := calls g + 1\<rparr>"
    using roll_one_die_in_range [of g] by blast
  obtain xs g2 where xs: "roll_n_dice n g1 = Inr (xs, g2)" "length xs = n" "set xs \<subseteq> {1..6}"
      "g2 = g1\<lparr>calls := calls g1 + n\<rparr>"
    using Suc.IH [of g1] by blast
  show ?case using x xs by simp
qed

lemma getitem_in_range:
  "0 \<le> k \<Longrightarrow> k < int (length xs) \<Longrightarrow> getitem xs k = Inr (xs ! nat k)"
  by (simp add: getitem_def)

lemma roll_dice_table:
  assumes "T \<noteq> []" "3 \<le> attacking" "M \<le> defending"
  shows "\<exists>k g1. randint 0 (int (length T) - 1) g = Inr (k, g1) \<and> 0 \<le> k \<and> k < int (length T)
           \<and> g1 = g\<lparr>calls := calls g + 1\<rparr>
           \<and> roll_dice M T attacking defending g = Inr ((fst (T ! nat k), snd (T ! nat k), True), g1)"
proof -
  have "0 \<le> int (length T) - 1" using assms(1) by (cases T) simp_all
  then obtain k g1 where k: "randint 0 (int (length T) - 1) g = Inr (k, g1)" "0 \<le> k"
      "k \<le> int (length T) - 1" "g1 = g\<lparr>calls := calls g + 1\<rparr>"
    using randint_in_range [of 0 "int (length T) - 1" g] by blast
  then have "getitem T k = Inr (T ! nat k)" by (simp add: getitem_in_range)
  then show ?thesis using k assms
    by (simp add: roll_dice_def MAX_ATTACKERS_def Let_def split: prod.splits)
qed

lemma roll_dice_live:
  assumes "\<not> (T \<noteq> [] \<and> 3 \<le> attacking \<and> M \<le> defending)"
  shows "\<exists>ar g1 dr g2.
           roll_n_dice (nat (min attacking 3)) g = Inr (ar, g1)
         \<and> roll_n_dice (nat (min defending M)) g1 = Inr (dr, g2)
         \<and> length ar = nat (min attacking 3) \<and> length dr = nat (min defending M)
         \<and> set ar \<subseteq> {1..6} \<and> set dr \<subseteq> {1..6}
         \<and> g2 = g\<lparr>calls := calls g + nat (min attacking 3) + nat (min defending M)\<rparr>
         \<and> roll_dice M T attacking defending g
             = Inr ((fst (fst (calculate_losses ar dr)), snd (fst (calculate_losses ar dr)),
                     (3 \<le> attacking \<and> M \<le> defending)), g2)"
proof -
  obtain ar g1 where ar: "roll_n_dice (nat (min attacking 3)) g = Inr (ar, g1)"
      "length ar = nat (min attacking 3)" "set ar \<subseteq> {1..6}"
      "g1 = g\<lparr>calls := calls g + nat (min attacking 3)\<rparr>"
    using roll_n_dice_ok [of "nat (min attacking 3)" g] by blast
  obtain dr g2 where dr: "roll_n_dice (nat (min defending M)) g1 = Inr (dr, g2)"
      "length dr = nat (min defending M)" "set dr \<subseteq> {1..6}"
      "g2 = g1\<lparr>calls := calls g1 + nat (min defending M)\<rparr>"
    using roll_n_dice_ok [of "nat (min defending M)" g1] by blast
  have "roll_dice M T attacking defending g
             = Inr ((fst (fst (calculate_losses ar dr)), snd (fst (calculate_losses ar dr)),
                     (3 \<le> attacking \<and> M \<le> defending)), g2)"
    using assms ar(1) dr(1)
    by (auto simp add: roll_dice_def MAX_ATTACKERS_def Let_def split: prod.splits)
  then show ?thesis using ar dr by simp
qed


text \<open>
  C3. For non-negative troop counts and a cap of 2 or 3, \<open>roll_dice\<close> never raises. It
  uses \<open>min attacking 3\<close> attacker dice and \<open>min defending MAX_DEFENDERS\<close> defender dice,
  and the flag it returns is true exactly when these counts are 3 and the cap. When the
  table is not empty and the round is maximal, the losses are the table entry at the
  index \<open>randint 0 (len - 1)\<close> draws, which is in bounds; otherwise they are
  \<open>calculate_losses\<close> of freshly rolled dice, each in \<open>1..6\<close>, and the flag is
  still the computed one (true for a maximal round with an empty table).
\<close>

theorem roll_dice_round:
  assumes "0 \<le> attacking" and "0 \<le> defending"
    and "MAX_DEFENDERS = 2 \<or> MAX_DEFENDERS = 3"
  shows "let attackers = min attacking 3;
             defenders = min defending MAX_DEFENDERS;
             is_maximal = (attackers = 3 \<and> defenders = MAX_DEFENDERS)
         in if PRECOMPUTED_ROLLS \<noteq> [] \<and> is_maximal
            then (\<exists>k g1. randint 0 (int (length PRECOMPUTED_ROLLS) - 1) g = Inr (k, g1)
                    \<and> 0 \<le> k \<and> k < int (length PRECOMPUTED_ROLLS)
                    \<and> roll_dice MAX_DEFENDERS PRECOMPUTED_ROLLS attacking defending g
                        = Inr ((fst (PRECOMPUTED_ROLLS ! nat k),
                                snd (PRECOMPUTED_ROLLS ! nat k), True), g1))
            else (\<exists>attacker_rolls g1 defender_rolls g2.
                    roll_n_dice (nat attackers) g = Inr (attacker_rolls, g1)
                  \<and> roll_n_dice (nat defenders) g1 = Inr (defender_rolls, g2)
                  \<and> int (length attacker_rolls) = attackers
                  \<and> int (length defender_rolls) = defenders
                  \<and> set attacker_rolls \<subseteq> {1..6} \<and> set defender_rolls \<subseteq> {1..6}
                  \<and> roll_dice MAX_DEFENDERS PRECOMPUTED_ROLLS attacking defending g
                      = Inr ((fst (fst (calculate_losses attacker_rolls defender_rolls)),
                              snd (fst (calculate_losses attacker_rolls defender_rolls)),
                              is_maximal), g2))"
proof -
  have m: "(min attacking 3 = 3 \<and> min defending MAX_DEFENDERS = MAX_DEFENDERS)
           \<longleftrightarrow> (3 \<le> attacking \<and> MAX_DEFENDERS \<le> defending)"
    by auto
  show ?thesis
  proof (cases "PRECOMPUTED_ROLLS \<noteq> [] \<and> 3 \<le> attacking \<and> MAX_DEFENDERS \<le> defending")
    case True
    then show ?thesis
      using roll_dice_table [of PRECOMPUTED_ROLLS attacking MAX_DEFENDERS defending g]
      unfolding Let_def m by auto
  next
    case False
    have n: "int (nat (min attacking 3)) = min attacking 3"
        "int (nat (min defending MAX_DEFENDERS)) = min defending MAX_DEFENDERS"
      using assms by auto
    obtain ar g1 dr g2 where r:
        "roll_n_dice (nat (min attacking 3)) g = Inr (ar, g1)"
        "roll_n_dice (nat (min defending MAX_DEFENDERS)) g1 = Inr (dr, g2)"
        "length ar = nat (min attacking 3)" "length dr = nat (min defending MAX_DEFENDERS)"
        "set ar \<subseteq> {1..6}" "set dr \<subseteq> {1..6}"
        "roll_dice MAX_DEFENDERS PRECOMPUTED_ROLLS attacking defending g
             = Inr ((fst (fst (calculate_losses ar dr)), snd (fst (calculate_losses ar dr)),
                     (3 \<le> attacking \<and> MAX_DEFENDERS \<le> defending)), g2)"
      using roll_dice_live [OF False, of g] by blast
    have "\<exists>attacker_rolls g1 defender_rolls g2.
                    roll_n_dice (nat (min attacking 3)) g = Inr (attacker_rolls, g1)
                  \<and> roll_n_dice (nat (min defending MAX_DEFENDERS)) g1 = Inr (defender_rolls, g2)
                  \<and> int (length attacker_rolls) = min attacking 3
                  \<and> int (length defender_rolls) = min defending MAX_DEFENDERS
                  \<and> set attacker_rolls \<subseteq> {1..6} \<and> set defender_rolls \<subseteq> {1..6}
                  \<and> roll_dice MAX_DEFENDERS PRECOMPUTED_ROLLS attacking defending g
                      = Inr ((fst (fst (calculate_losses attacker_rolls defender_rolls)),
                              snd (fst (calculate_losses attacker_rolls defender_rolls)),
                              (3 \<le> attacking \<and> MAX_DEFENDERS \<le> defending)), g2)"
      using r n by (intro exI [of _ ar] exI [of _ g1] exI [of _ dr] exI [of _ g2]) simp
    then show ?thesis unfolding Let_def m if_not_P [OF False] .
  qed
qed

theorem roll_dice_round_witness:
  "roll_dice 2 [(2, 0), (1, 1), (0, 2)] 3 2 example_rng
     = Inr ((0, 2, True), example_rng\<lparr>calls := 1\<rparr>)
   \<and> roll_dice 2 [] 2 1 example_rng = Inr ((1, 0, False), example_rng\<lparr>calls := 3\<rparr>)"
proof -
  have a: "roll_dice 2 [(2, 0), (1, 1), (0, 2)] 3 2 example_rng
     = Inr ((0, 2, True), example_rng\<lparr>calls := 1\<rparr>)"
    using roll_dice_round [of 3 2 2 "[(2, 0), (1, 1), (0, 2)]" example_rng]
    by (simp add: randint_def example_rng_def)
  have b: "roll_dice 2 [] 2 1 example_rng = Inr ((1, 0, False), example_rng\<lparr>calls := 3\<rparr>)"
    using roll_dice_round [of 2 1 2 "[]" example_rng]
    by (simp add: numeral_2_eq_2 roll_one_die_def randint_def example_rng_def
        calculate_losses_def compare_dice_zip sort_reverse_def)
  from a b show ?thesis by simp
qed


section \<open>The battle loop: simulate_battle\<close>

lemma calculate_losses_bounds:
  "0 \<le> fst (fst (calculate_losses xs ys)) \<and> 0 \<le> snd (fst (calculate_losses xs ys))
   \<and> fst (fst (calculate_losses xs ys)) + snd (fst (calculate_losses xs ys))
      = int (min (length xs) (length ys))"
  using filter_split_length [of "zip (sort_reverse xs) (sort_reverse ys)"]
  by (simp add: calculate_losses_def Let_def compare_dice_zip length_sort_reverse)

lemma valid_outcome_table:
  "valid_table (int n) (outcome_table n)"
proof -
  have "0 \<le> fst (fst (calculate_losses (take 3 c) (drop 3 c)))
        \<and> 0 \<le> snd (fst (calculate_losses (take 3 c) (drop 3 c)))
        \<and> fst (fst (calculate_losses (take 3 c) (drop 3 c)))
          + snd (fst (calculate_losses (take 3 c) (drop 3 c))) = min 3 (int n)"
    if "length c = 3 + n" for c :: "int list"
    using calculate_losses_bounds [of "take 3 c" "drop 3 c"] that by (simp add: min_def)
  then show ?thesis
    by (simp add: valid_table_def outcome_table_def list_all_iff set_dice_combinations)
qed

lemma valid_configuration:
  assumes "M = 2 \<or> M = 3" and "T = [] \<or> T = precompute_max_dice_rolls M []"
  shows "valid_table M T"
proof (cases "T = []")
  case True
  then show ?thesis by (simp add: valid_table_def)
next
  case False
  then have T: "T = precompute_max_dice_rolls M []" using assms(2) by simp
  show ?thesis
  proof (cases "M = 3")
    case True
    then show ?thesis using T valid_outcome_table [of 3] precompute_capital [of "[]"] by simp
  next
    case False
    then have "M = 2" using assms(1) by simp
    then show ?thesis using T valid_outcome_table [of 2] precompute_standard [of 2 "[]"] by simp
  qed
qed

lemma roll_dice_losses:
  assumes "valid_table M T" and "0 \<le> attacking" and "0 \<le> defending" and "0 \<le> M"
  shows "\<exists>al dl f g1. roll_dice M T attacking defending g = Inr ((al, dl, f), g1)
           \<and> 0 \<le> al \<and> 0 \<le> dl
           \<and> al + dl = min (min attacking 3) (min defending M)
           \<and> f = (3 \<le> attacking \<and> M \<le> defending)"
proof (cases "T \<noteq> [] \<and> 3 \<le> attacking \<and> M \<le> defending")
  case True
  then obtain k g1 where k: "0 \<le> k" "k < int (length T)"
      "roll_dice M T attacking defending g = Inr ((fst (T ! nat k), snd (T ! nat k), True), g1)"
    using roll_dice_table [of T attacking M defending g] by blast
  then have "T ! nat k \<in> set T" by simp
  then have "0 \<le> fst (T ! nat k) \<and> 0 \<le> snd (T ! nat k)
             \<and> fst (T ! nat k) + snd (T ! nat k) = min 3 M"
    using assms(1) by (simp add: valid_table_def list_all_iff)
  then show ?thesis using k True by (auto simp add: min_def)
next
  case False
  obtain ar g1 dr g2 where r:
      "length ar = nat (min attacking 3)" "length dr = nat (min defending M)"
      "roll_dice M T attacking defending g
             = Inr ((fst (fst (calculate_losses ar dr)), snd (fst (calculate_losses ar dr)),
                     (3 \<le> attacking \<and> M \<le> defending)), g2)"
    using roll_dice_live [OF False, of g] by blast
  have la: "int (length ar) = min attacking 3" using r(1) assms(2) by simp
  have ld: "int (length dr) = min defending M" using r(2) assms(3,4) by simp
  have "int (min (length ar) (length dr)) = min (int (length ar)) (int (length dr))"
    by (rule of_nat_min)
  then have "int (min (length ar) (length dr)) = min (min attacking 3) (min defending M)"
    by (simp only: la ld)
  then show ?thesis using r(3) calculate_losses_bounds [of ar dr] by simp
qed


lemma loop_body_round:
  assumes "valid_table M T" and "0 \<le> M" and "loop_guard b"
  shows "\<exists>al dl f g1.
           0 \<le> al \<and> 0 \<le> dl
         \<and> al + dl = min (min (attacking_troops b - 1) 3) (min (defending_troops b) M)
         \<and> loop_body M T (b, g)
             = Inr (\<lparr>attacking_troops = attacking_troops b - al,
                     defending_troops = defending_troops b - dl,
                     total_attacker_losses = total_attacker_losses b + al,
                     total_defender_losses = total_defender_losses b + dl,
                     non_maximum_rolls = non_maximum_rolls b + (1 - (if f then 1 else 0)),
                     maximum_rolls = maximum_rolls b + (if f then 1 else 0)\<rparr>, g1)"
proof -
  have "0 \<le> attacking_troops b - 1" "0 \<le> defending_troops b"
    using assms(3) by (simp_all add: loop_guard_def)
  then obtain al dl f g1 where r:
      "roll_dice M T (attacking_troops b - 1) (defending_troops b) g = Inr ((al, dl, f), g1)"
      "0 \<le> al" "0 \<le> dl"
      "al + dl = min (min (attacking_troops b - 1) 3) (min (defending_troops b) M)"
    using roll_dice_losses [OF assms(1), of "attacking_troops b - 1" "defending_troops b" g] assms(2)
    by blast
  show ?thesis
    using r by (intro exI [of _ al] exI [of _ dl] exI [of _ f] exI [of _ g1])
               (simp add: loop_body_def)
qed

lemma loop_body_progress:
  assumes "valid_table M T" and "1 \<le> M" and "loop_guard b"
  shows "\<exists>b' g1. loop_body M T (b, g) = Inr (b', g1)
           \<and> (attacking_troops b - attacking_troops b') + (defending_troops b - defending_troops b')
               = min (min (attacking_troops b - 1) 3) (min (defending_troops b) M)
           \<and> 1 \<le> min (min (attacking_troops b - 1) 3) (min (defending_troops b) M)
           \<and> attacking_troops b' + defending_troops b' < attacking_troops b + defending_troops b
           \<and> 1 \<le> attacking_troops b' \<and> 0 \<le> defending_troops b'
           \<and> total_attacker_losses b' + attacking_troops b'
               = total_attacker_losses b + attacking_troops b
           \<and> total_defender_losses b' + defending_troops b'
               = total_defender_losses b + defending_troops b"
proof -
  have m: "0 \<le> M" using assms(2) by simp
  obtain al dl f g1 where r: "0 \<le> al" "0 \<le> dl"
      "al + dl = min (min (attacking_troops b - 1) 3) (min (defending_troops b) M)"
      "loop_body M T (b, g)
             = Inr (\<lparr>attacking_troops = attacking_troops b - al,
                     defending_troops = defending_troops b - dl,
                     total_attacker_losses = total_attacker_losses b + al,
                     total_defender_losses = total_defender_losses b + dl,
                     non_maximum_rolls = non_maximum_rolls b + (1 - (if f then 1 else 0)),
                     maximum_rolls = maximum_rolls b + (if f then 1 else 0)\<rparr>, g1)"
    using loop_body_round [OF assms(1) m assms(3), of g] by blast
  have g: "2 \<le> attacking_troops b" "1 \<le> defending_troops b"
    using assms(3) by (simp_all add: loop_guard_def)
  have one: "1 \<le> min (min (attacking_troops b - 1) 3) (min (defending_troops b) M)"
    using g assms(2) by simp
  have al: "al \<le> attacking_troops b - 1" using r(1,2,3) by linarith
  have dl: "dl \<le> defending_troops b" using r(1,2,3) by linarith
  have pos: "0 < al + dl" using one r(3) by linarith
  have sum: "al + dl = min (min (attacking_troops b - 1) 3) (min (defending_troops b) M)"
    by (rule r(3))
  show ?thesis
    unfolding r(4) using one al dl pos sum by (simp del: min_less_iff_conj min.bounded_iff)
qed


lemma battle_loop_stop:
  "\<not> loop_guard (fst s) \<Longrightarrow> battle_loop M T s = Some (Inr s)"
  by (subst battle_loop.simps) simp

lemma battle_loop_step:
  "loop_guard (fst s) \<Longrightarrow> loop_body M T s = Inr s' \<Longrightarrow> battle_loop M T s = battle_loop M T s'"
  by (subst battle_loop.simps) simp

lemma battle_loop_terminates:
  assumes "valid_table M T" and "1 \<le> M"
  shows "\<exists>n s'. battle_loop M T s = Some (Inr s') \<and> rounds M T n s = Inr s'
           \<and> \<not> loop_guard (fst s')"
proof (induction "nat (attacking_troops (fst s) + defending_troops (fst s))"
         arbitrary: s rule: less_induct)
  case less
  show ?case
  proof (cases "loop_guard (fst s)")
    case False
    then have "battle_loop M T s = Some (Inr s) \<and> rounds M T 0 s = Inr s \<and> \<not> loop_guard (fst s)"
      by (simp add: battle_loop_stop)
    then show ?thesis by blast
  next
    case True
    obtain b g where s: "s = (b, g)" by (cases s)
    then have gb: "loop_guard b" using True by simp
    obtain b' g1 where b': "loop_body M T (b, g) = Inr (b', g1)"
        "attacking_troops b' + defending_troops b' < attacking_troops b + defending_troops b"
      using loop_body_progress [OF assms gb, of g] by blast
    have "0 < attacking_troops b + defending_troops b"
      using gb by (simp add: loop_guard_def)
    then have "nat (attacking_troops (fst (b', g1)) + defending_troops (fst (b', g1)))
               < nat (attacking_troops (fst s) + defending_troops (fst s))"
      using b'(2) s by simp
    then obtain n s' where n: "battle_loop M T (b', g1) = Some (Inr s')"
        "rounds M T n (b', g1) = Inr s'" "\<not> loop_guard (fst s')"
      using less [of "(b', g1)"] by blast
    have "battle_loop M T s = Some (Inr s')"
      using battle_loop_step [of s M T "(b', g1)"] True b'(1) s n(1) by simp
    moreover have "rounds M T (Suc n) s = Inr s'"
      using True b'(1) s n(2) by simp
    ultimately show ?thesis using n(3) by blast
  qed
qed

lemma rounds_invariant:
  assumes "valid_table M T" and "1 \<le> M"
    and "1 \<le> attacking_troops (fst s)" and "0 \<le> defending_troops (fst s)"
  shows "\<exists>s'. rounds M T n s = Inr s'
           \<and> 1 \<le> attacking_troops (fst s') \<and> 0 \<le> defending_troops (fst s')
           \<and> total_attacker_losses (fst s') + attacking_troops (fst s')
               = total_attacker_losses (fst s) + attacking_troops (fst s)
           \<and> total_defender_losses (fst s') + defending_troops (fst s')
               = total_defender_losses (fst s) + defending_troops (fst s)"
  using assms(3,4)
proof (induction n arbitrary: s)
  case 0
  then show ?case by simp
next
  case (Suc n)
  show ?case
  proof (cases "loop_guard (fst s)")
    case False
    then show ?thesis using Suc.prems by simp
  next
    case True
    obtain b g where s: "s = (b, g)" by (cases s)
    then have gb: "loop_guard b" using True by simp
    obtain b' g1 where b': "loop_body M T (b, g) = Inr (b', g1)"
        "1 \<le> attacking_troops b'" "0 \<le> defending_troops b'"
        "total_attacker_losses b' + attacking_troops b'
               = total_attacker_losses b + attacking_troops b"
        "total_defender_losses b' + defending_troops b'
               = total_defender_losses b + defending_troops b"
      using loop_body_progress [OF assms(1,2) gb, of g] by blast
    obtain s' where s': "rounds M T n (b', g1) = Inr s'"
        "1 \<le> attacking_troops (fst s')" "0 \<le> defending_troops (fst s')"
        "total_attacker_losses (fst s') + attacking_troops (fst s')
               = total_attacker_losses b' + attacking_troops b'"
        "total_defender_losses (fst s') + defending_troops (fst s')
               = total_defender_losses b' + defending_troops b'"
      using Suc.IH [of "(b', g1)"] b'(2,3) by auto
    have "rounds M T (Suc n) s = Inr s'" using True s b'(1) s'(1) by simp
    then show ?thesis using s' b'(4,5) s by simp
  qed
qed


lemma rounds_stop:
  "\<not> loop_guard (fst s) \<Longrightarrow> rounds M T n s = Inr s"
  by (cases n) simp_all

lemma simulate_battle_no_round:
  assumes "\<not> loop_guard (initial_battle attacking defending)"
  shows "simulate_battle M T attacking defending g = Some (Inr ((0, 0, 0, 0), g))
         \<and> rounds M T n (initial_battle attacking defending, g)
             = Inr (initial_battle attacking defending, g)"
  using assms
  by (simp add: simulate_battle_def battle_loop_stop rounds_stop) (simp add: initial_battle_def)

lemma simulate_battle_result:
  "battle_loop M T (initial_battle attacking defending, g) = Some (Inr (b, g1)) \<Longrightarrow>
   simulate_battle M T attacking defending g
     = Some (Inr ((total_attacker_losses b, total_defender_losses b,
                   maximum_rolls b, non_maximum_rolls b), g1))"
  by (simp add: simulate_battle_def)

text \<open>
  C4, as the code has it. In every configuration \<open>main\<close> sets up (cap 2 or 3, the table
  empty or precomputed for that cap) and for every pair of integer troop counts: while
  the loop guard holds, a round raises no error, loses
  \<open>min(attacker dice, defender dice) \<ge> 1\<close> troops in all and so strictly decreases
  \<open>attacking_troops + defending_troops\<close>; the loop returns after finitely many rounds,
  and at exit \<open>attacking_troops \<le> 1\<close> or \<open>defending_troops \<le> 0\<close>, with
  \<open>defending_troops = 0\<close> in the second case when the starting defender count is not
  negative.
\<close>

theorem simulate_battle_terminates:
  assumes "MAX_DEFENDERS = 2 \<or> MAX_DEFENDERS = 3"
    and "PRECOMPUTED_ROLLS = []
         \<or> PRECOMPUTED_ROLLS = precompute_max_dice_rolls MAX_DEFENDERS []"
  shows "(loop_guard b \<longrightarrow>
            (\<exists>b' g1. loop_body MAX_DEFENDERS PRECOMPUTED_ROLLS (b, g) = Inr (b', g1)
               \<and> (attacking_troops b - attacking_troops b')
                   + (defending_troops b - defending_troops b')
                 = min (min (attacking_troops b - 1) 3) (min (defending_troops b) MAX_DEFENDERS)
               \<and> 1 \<le> min (min (attacking_troops b - 1) 3) (min (defending_troops b) MAX_DEFENDERS)
               \<and> attacking_troops b' + defending_troops b'
                   < attacking_troops b + defending_troops b))
       \<and> (\<exists>n b' g1.
             battle_loop MAX_DEFENDERS PRECOMPUTED_ROLLS (initial_battle attacking defending, g)
               = Some (Inr (b', g1))
           \<and> rounds MAX_DEFENDERS PRECOMPUTED_ROLLS n (initial_battle attacking defending, g)
               = Inr (b', g1)
           \<and> simulate_battle MAX_DEFENDERS PRECOMPUTED_ROLLS attacking defending g
               = Some (Inr ((total_attacker_losses b', total_defender_losses b',
                             maximum_rolls b', non_maximum_rolls b'), g1))
           \<and> (attacking_troops b' \<le> 1 \<or> defending_troops b' \<le> 0)
           \<and> (0 \<le> defending \<longrightarrow> attacking_troops b' \<le> 1 \<or> defending_troops b' = 0))"
proof -
  have v: "valid_table MAX_DEFENDERS PRECOMPUTED_ROLLS"
    using assms by (rule valid_configuration)
  have m: "1 \<le> MAX_DEFENDERS" using assms(1) by auto
  have round: "loop_guard b \<longrightarrow>
            (\<exists>b' g1. loop_body MAX_DEFENDERS PRECOMPUTED_ROLLS (b, g) = Inr (b', g1)
               \<and> (attacking_troops b - attacking_troops b')
                   + (defending_troops b - defending_troops b')
                 = min (min (attacking_troops b - 1) 3) (min (defending_troops b) MAX_DEFENDERS)
               \<and> 1 \<le> min (min (attacking_troops b - 1) 3) (min (defending_troops b) MAX_DEFENDERS)
               \<and> attacking_troops b' + defending_troops b'
                   < attacking_troops b + defending_troops b)"
  proof
    assume "loop_guard b"
    then obtain b' g1 where
        "loop_body MAX_DEFENDERS PRECOMPUTED_ROLLS (b, g) = Inr (b', g1)"
        "(attacking_troops b - attacking_troops b') + (defending_troops b - defending_troops b')
          = min (min (attacking_troops b - 1) 3) (min (defending_troops b) MAX_DEFENDERS)"
        "1 \<le> min (min (attacking_troops b - 1) 3) (min (defending_troops b) MAX_DEFENDERS)"
        "attacking_troops b' + defending_troops b' < attacking_troops b + defending_troops b"
      using loop_body_progress [OF v m, of b g] by blast
    then show "\<exists>b' g1. loop_body MAX_DEFENDERS PRECOMPUTED_ROLLS (b, g) = Inr (b', g1)
               \<and> (attacking_troops b - attacking_troops b')
                   + (defending_troops b - defending_troops b')
                 = min (min (attacking_troops b - 1) 3) (min (defending_troops b) MAX_DEFENDERS)
               \<and> 1 \<le> min (min (attacking_troops b - 1) 3) (min (defending_troops b) MAX_DEFENDERS)
               \<and> attacking_troops b' + defending_troops b'
                   < attacking_troops b + defending_troops b"
      by blast
  qed
  obtain n s' where n:
      "battle_loop MAX_DEFENDERS PRECOMPUTED_ROLLS (initial_battle attacking defending, g)
         = Some (Inr s')"
      "rounds MAX_DEFENDERS PRECOMPUTED_ROLLS n (initial_battle attacking defending, g) = Inr s'"
      "\<not> loop_guard (fst s')"
    using battle_loop_terminates [OF v m, of "(initial_battle attacking defending, g)"] by blast
  obtain b' g1 where s': "s' = (b', g1)" by (cases s')
  have exit: "attacking_troops b' \<le> 1 \<or> defending_troops b' \<le> 0"
    using n(3) s' by (auto simp add: loop_guard_def)
  have nonneg: "0 \<le> defending_troops b'" if d: "0 \<le> defending"
  proof (cases "loop_guard (initial_battle attacking defending)")
    case False
    then have "s' = (initial_battle attacking defending, g)"
      using n(2) by (simp add: rounds_stop)
    then show ?thesis using d s' by (simp add: initial_battle_def)
  next
    case True
    then have "1 \<le> attacking_troops (fst (initial_battle attacking defending, g))"
        "0 \<le> defending_troops (fst (initial_battle attacking defending, g))"
      by (simp_all add: loop_guard_def)
    then show ?thesis
      using rounds_invariant [OF v m, of "(initial_battle attacking defending, g)" n] n(2) s'
      by auto
  qed
  have fin: "0 \<le> defending \<longrightarrow> attacking_troops b' \<le> 1 \<or> defending_troops b' = 0"
    using exit nonneg by auto
  have "battle_loop MAX_DEFENDERS PRECOMPUTED_ROLLS (initial_battle attacking defending, g)
               = Some (Inr (b', g1))
           \<and> rounds MAX_DEFENDERS PRECOMPUTED_ROLLS n (initial_battle attacking defending, g)
               = Inr (b', g1)
           \<and> simulate_battle MAX_DEFENDERS PRECOMPUTED_ROLLS attacking defending g
               = Some (Inr ((total_attacker_losses b', total_defender_losses b',
                             maximum_rolls b', non_maximum_rolls b'), g1))
           \<and> (attacking_troops b' \<le> 1 \<or> defending_troops b' \<le> 0)
           \<and> (0 \<le> defending \<longrightarrow> attacking_troops b' \<le> 1 \<or> defending_troops b' = 0)"
    using n(1,2) s' exit fin simulate_battle_result [of MAX_DEFENDERS PRECOMPUTED_ROLLS attacking defending g b' g1]
    by simp
  then show ?thesis using round by blast
qed

text \<open>
  C4 as stated fails on a negative defender count: started on 2 attackers and -1
  defenders the loop exits at once, with 2 attackers and -1 defenders.
\<close>

theorem simulate_battle_exit_counterexample:
  "simulate_battle 2 [] 2 (- 1) example_rng = Some (Inr ((0, 0, 0, 0), example_rng))
   \<and> battle_loop 2 [] (initial_battle 2 (- 1), example_rng)
       = Some (Inr (initial_battle 2 (- 1), example_rng))
   \<and> \<not> (attacking_troops (initial_battle 2 (- 1)) \<le> 1
         \<or> defending_troops (initial_battle 2 (- 1)) = 0)"
proof -
  have g: "\<not> loop_guard (initial_battle 2 (- 1))"
    by (simp add: loop_guard_def initial_battle_def)
  show ?thesis
    using g simulate_battle_no_round [OF g, of 2 "[]" example_rng 0]
    by (simp add: battle_loop_stop) (simp add: initial_battle_def)
qed


theorem simulate_battle_terminates_witness:
  "loop_guard (initial_battle 2 1)
   \<and> (\<exists>b' g1. loop_body 2 [] (initial_battle 2 1, example_rng) = Inr (b', g1)
         \<and> attacking_troops b' + defending_troops b' < 3)
   \<and> (\<exists>n b' g1. battle_loop 2 [] (initial_battle 2 1, example_rng) = Some (Inr (b', g1))
         \<and> rounds 2 [] n (initial_battle 2 1, example_rng) = Inr (b', g1)
         \<and> (attacking_troops b' \<le> 1 \<or> defending_troops b' = 0))"
proof -
  have g: "loop_guard (initial_battle 2 1)"
    by (simp add: loop_guard_def initial_battle_def)
  have t: "attacking_troops (initial_battle 2 1) + defending_troops (initial_battle 2 1) = 3"
    by (simp add: initial_battle_def)
  show ?thesis
    using g t simulate_battle_terminates [of 2 "[]" "initial_battle 2 1" example_rng 2 1]
    by fastforce
qed

text \<open>
  C5. Started on at least one attacker and no negative defender count, after any
  number \<open>n\<close> of iterations the loop has raised no error, the accumulated attacker
  losses are at most the starting attackers minus one, the accumulated defender losses
  at most the starting defenders, the running attacker count is at least 1 and the
  running defender count at least 0; and the battle ends with \<open>attacking_troops \<le> 1\<close>
  or \<open>defending_troops = 0\<close>.
\<close>

theorem simulate_battle_loss_bounds:
  assumes "1 \<le> attacking" and "0 \<le> defending"
    and "MAX_DEFENDERS = 2 \<or> MAX_DEFENDERS = 3"
    and "PRECOMPUTED_ROLLS = []
         \<or> PRECOMPUTED_ROLLS = precompute_max_dice_rolls MAX_DEFENDERS []"
  shows "(\<exists>b g1. rounds MAX_DEFENDERS PRECOMPUTED_ROLLS n (initial_battle attacking defending, g)
                   = Inr (b, g1)
            \<and> total_attacker_losses b \<le> attacking - 1
            \<and> total_defender_losses b \<le> defending
            \<and> 1 \<le> attacking_troops b \<and> 0 \<le> defending_troops b
            \<and> total_attacker_losses b = attacking - attacking_troops b
            \<and> total_defender_losses b = defending - defending_troops b)
       \<and> (\<exists>b g1. battle_loop MAX_DEFENDERS PRECOMPUTED_ROLLS (initial_battle attacking defending, g)
                   = Some (Inr (b, g1))
            \<and> simulate_battle MAX_DEFENDERS PRECOMPUTED_ROLLS attacking defending g
                = Some (Inr ((total_attacker_losses b, total_defender_losses b,
                              maximum_rolls b, non_maximum_rolls b), g1))
            \<and> (attacking_troops b \<le> 1 \<or> defending_troops b = 0)
            \<and> 1 \<le> attacking_troops b \<and> 0 \<le> defending_troops b
            \<and> total_attacker_losses b \<le> attacking - 1
            \<and> total_defender_losses b \<le> defending)"
proof -
  have v: "valid_table MAX_DEFENDERS PRECOMPUTED_ROLLS"
    using assms(3,4) by (rule valid_configuration)
  have m: "1 \<le> MAX_DEFENDERS" using assms(3) by auto
  have i: "1 \<le> attacking_troops (fst (initial_battle attacking defending, g))"
      "0 \<le> defending_troops (fst (initial_battle attacking defending, g))"
    using assms(1,2) by (simp_all add: initial_battle_def)
  have inv: "\<exists>b g1. rounds MAX_DEFENDERS PRECOMPUTED_ROLLS k (initial_battle attacking defending, g)
                   = Inr (b, g1)
            \<and> 1 \<le> attacking_troops b \<and> 0 \<le> defending_troops b
            \<and> total_attacker_losses b = attacking - attacking_troops b
            \<and> total_defender_losses b = defending - defending_troops b" for k
  proof -
    obtain s' where s': "rounds MAX_DEFENDERS PRECOMPUTED_ROLLS k (initial_battle attacking defending, g) = Inr s'"
        "1 \<le> attacking_troops (fst s')" "0 \<le> defending_troops (fst s')"
        "total_attacker_losses (fst s') + attacking_troops (fst s')
           = total_attacker_losses (fst (initial_battle attacking defending, g))
             + attacking_troops (fst (initial_battle attacking defending, g))"
        "total_defender_losses (fst s') + defending_troops (fst s')
           = total_defender_losses (fst (initial_battle attacking defending, g))
             + defending_troops (fst (initial_battle attacking defending, g))"
      using rounds_invariant [OF v m i, of k] by blast
    have "total_attacker_losses (fst s') = attacking - attacking_troops (fst s')"
        "total_defender_losses (fst s') = defending - defending_troops (fst s')"
      using s'(4,5) by (simp_all add: initial_battle_def)
    then show ?thesis using s'(1,2,3) by (cases s') simp
  qed
  obtain b g1 where b:
      "rounds MAX_DEFENDERS PRECOMPUTED_ROLLS n (initial_battle attacking defending, g) = Inr (b, g1)"
      "1 \<le> attacking_troops b" "0 \<le> defending_troops b"
      "total_attacker_losses b = attacking - attacking_troops b"
      "total_defender_losses b = defending - defending_troops b"
    using inv [of n] by blast
  have first: "\<exists>b g1. rounds MAX_DEFENDERS PRECOMPUTED_ROLLS n (initial_battle attacking defending, g)
                   = Inr (b, g1)
            \<and> total_attacker_losses b \<le> attacking - 1
            \<and> total_defender_losses b \<le> defending
            \<and> 1 \<le> attacking_troops b \<and> 0 \<le> defending_troops b
            \<and> total_attacker_losses b = attacking - attacking_troops b
            \<and> total_defender_losses b = defending - defending_troops b"
    using b by (intro exI [of _ b] exI [of _ g1]) simp
  obtain k s' where k:
      "battle_loop MAX_DEFENDERS PRECOMPUTED_ROLLS (initial_battle attacking defending, g)
         = Some (Inr s')"
      "rounds MAX_DEFENDERS PRECOMPUTED_ROLLS k (initial_battle attacking defending, g) = Inr s'"
      "\<not> loop_guard (fst s')"
    using battle_loop_terminates [OF v m, of "(initial_battle attacking defending, g)"] by blast
  obtain c g2 where c: "s' = (c, g2)"
      "1 \<le> attacking_troops c" "0 \<le> defending_troops c"
      "total_attacker_losses c = attacking - attacking_troops c"
      "total_defender_losses c = defending - defending_troops c"
    using inv [of k] k(2) by auto
  have exit: "attacking_troops c \<le> 1 \<or> defending_troops c = 0"
    using k(3) c(1,3) by (auto simp add: loop_guard_def)
  have second: "\<exists>b g1. battle_loop MAX_DEFENDERS PRECOMPUTED_ROLLS (initial_battle attacking defending, g)
                   = Some (Inr (b, g1))
            \<and> simulate_battle MAX_DEFENDERS PRECOMPUTED_ROLLS attacking defending g
                = Some (Inr ((total_attacker_losses b, total_defender_losses b,
                              maximum_rolls b, non_maximum_rolls b), g1))
            \<and> (attacking_troops b \<le> 1 \<or> defending_troops b = 0)
            \<and> 1 \<le> attacking_troops b \<and> 0 \<le> defending_troops b
            \<and> total_attacker_losses b \<le> attacking - 1
            \<and> total_defender_losses b \<le> defending"
    using k(1) c exit
      simulate_battle_result [of MAX_DEFENDERS PRECOMPUTED_ROLLS attacking defending g c g2]
    by (intro exI [of _ c] exI [of _ g2]) simp
  from first second show ?thesis by blast
qed

theorem simulate_battle_loss_bounds_witness:
  "(\<exists>b g1. rounds 3 (precompute_max_dice_rolls 3 []) 7 (initial_battle 10 6, example_rng)
              = Inr (b, g1)
       \<and> total_attacker_losses b \<le> 9 \<and> total_defender_losses b \<le> 6
       \<and> 1 \<le> attacking_troops b \<and> 0 \<le> defending_troops b)
   \<and> (\<exists>b g1. battle_loop 3 (precompute_max_dice_rolls 3 []) (initial_battle 10 6, example_rng)
              = Some (Inr (b, g1))
       \<and> (attacking_troops b \<le> 1 \<or> defending_troops b = 0)
       \<and> total_attacker_losses b \<le> 9 \<and> total_defender_losses b \<le> 6)"
  using simulate_battle_loss_bounds
          [of 10 6 3 "precompute_max_dice_rolls 3 []" 7 example_rng]
  by fastforce


section \<open>Battles that run no round, and main\<close>

text \<open>
  A battle run on concrete input: 3 attackers against 2 defenders, no table. The dice
  are 3, 1 against 5, 3: the attacker loses two troops in one non-maximal round.
\<close>

lemma simulate_battle_example:
  "(case simulate_battle 2 [] 3 2 example_rng of Some (Inr (r, g)) \<Rightarrow> (r, calls g))
     = ((2, 0, 0, 1), 4)"
  by code_simp

text \<open>
  C9. Started on at most one attacker, with any defender count, table and cap,
  \<open>simulate_battle\<close> raises no error, runs no round (the loop's trace never leaves the
  initial state and the generator is not advanced) and returns zero attacker losses,
  zero defender losses, zero maximal and zero non-maximal rounds; so does
  \<open>simulate_battle(1, 5)\<close>.
\<close>

theorem simulate_battle_attacker_minimum:
  assumes "attacking \<le> 1"
  shows "simulate_battle MAX_DEFENDERS PRECOMPUTED_ROLLS attacking defending g
           = Some (Inr ((0, 0, 0, 0), g))
         \<and> rounds MAX_DEFENDERS PRECOMPUTED_ROLLS n (initial_battle attacking defending, g)
             = Inr (initial_battle attacking defending, g)"
proof -
  have "\<not> loop_guard (initial_battle attacking defending)"
    using assms by (simp add: loop_guard_def initial_battle_def)
  then show ?thesis by (rule simulate_battle_no_round)
qed

theorem simulate_battle_attacker_minimum_witness:
  "(1::int) \<le> 1 \<and> simulate_battle 2 (precompute_max_dice_rolls 2 []) 1 5 example_rng
      = Some (Inr ((0, 0, 0, 0), example_rng))"
  using simulate_battle_attacker_minimum [of 1 2 "precompute_max_dice_rolls 2 []" 5 example_rng 1]
  by simp

text \<open>
  C10. Started on at least two attackers and a defender count of zero or less,
  negative counts included, \<open>simulate_battle\<close> raises no error, runs no round and returns
  zero losses and zero round counts.
\<close>

theorem simulate_battle_no_defenders:
  assumes "2 \<le> attacking" and "defending \<le> 0"
  shows "simulate_battle MAX_DEFENDERS PRECOMPUTED_ROLLS attacking defending g
           = Some (Inr ((0, 0, 0, 0), g))
         \<and> rounds MAX_DEFENDERS PRECOMPUTED_ROLLS n (initial_battle attacking defending, g)
             = Inr (initial_battle attacking defending, g)"
proof -
  have "\<not> loop_guard (initial_battle attacking defending)"
    using assms(2) by (simp add: loop_guard_def initial_battle_def)
  then show ?thesis by (rule simulate_battle_no_round)
qed

theorem simulate_battle_no_defenders_witness:
  "(2::int) \<le> 4 \<and> (- 3::int) \<le> 0
   \<and> simulate_battle 3 (precompute_max_dice_rolls 3 []) 4 (- 3) example_rng
      = Some (Inr ((0, 0, 0, 0), example_rng))"
  using simulate_battle_no_defenders [of 4 "- 3" 3 "precompute_max_dice_rolls 3 []" example_rng 0]
  by simp

lemma trial_loop_no_round:
  assumes "\<not> loop_guard (initial_battle attacking defending)"
  shows "trial_loop M T attacking defending n g
           = Some (Inr (replicate n (0, 0, 0, 0, 0), g))"
  using simulate_battle_no_round [OF assms, of M T _ 0]
  by (induction n arbitrary: g) simp_all

text \<open>
  C6. With a seed other than zero, the result of \<open>main\<close> (every trial record, field by
  field, and the final generator) does not depend on the state the generator had when
  the process started: two runs on the same arguments return the same records. The
  elapsed time, the one field read from the clock, is not part of the modelled record.
\<close>

theorem main_seed_deterministic:
  assumes "args_random_seed a \<noteq> 0"
  shows "main seed a g0 = main seed a g0'"
  using assms by (simp add: main_def)

text \<open>
  C7, as the code has it. \<open>main\<close> validates no troop count: given a non-positive
  attacking count or a negative defending count it raises no error, runs no battle
  round (the generator is not advanced) and writes one all-zero record per trial.
\<close>

theorem main_accepts_invalid_troops:
  assumes "args_attacking_troops a \<le> 0 \<or> args_defending_troops a < 0"
  shows "main seed a g0
           = Some (Inr (replicate (nat (args_trials a)) (0, 0, 0, 0, 0),
                        if args_random_seed a \<noteq> 0 then seed (args_random_seed a) else g0))"
proof -
  have "\<not> loop_guard (initial_battle (args_attacking_troops a) (args_defending_troops a))"
    using assms by (auto simp add: loop_guard_def initial_battle_def)
  then show ?thesis
    by (simp add: main_def Let_def trial_loop_no_round)
qed


theorem main_seed_deterministic_witness:
  "main example_seed
     \<lparr>args_attacking_troops = 3, args_defending_troops = 2, args_capital = False,
      args_trials = 1, args_random_seed = 12345, args_no_precomputed_rolls = False\<rparr>
     example_rng
   = main example_seed
     \<lparr>args_attacking_troops = 3, args_defending_troops = 2, args_capital = False,
      args_trials = 1, args_random_seed = 12345, args_no_precomputed_rolls = False\<rparr>
     (example_rng\<lparr>calls := 5\<rparr>)"
  using main_seed_deterministic
          [of "\<lparr>args_attacking_troops = 3, args_defending_troops = 2, args_capital = False,
                args_trials = 1, args_random_seed = 12345, args_no_precomputed_rolls = False\<rparr>"
              example_seed example_rng "example_rng\<lparr>calls := 5\<rparr>"]
  by simp

theorem main_accepts_invalid_troops_witness:
  "main example_seed
     \<lparr>args_attacking_troops = - 2, args_defending_troops = 3, args_capital = True,
      args_trials = 2, args_random_seed = 7, args_no_precomputed_rolls = False\<rparr>
     example_rng
   = Some (Inr ([(0, 0, 0, 0, 0), (0, 0, 0, 0, 0)], example_seed 7))"
  using main_accepts_invalid_troops
          [of "\<lparr>args_attacking_troops = - 2, args_defending_troops = 3, args_capital = True,
                args_trials = 2, args_random_seed = 7, args_no_precomputed_rolls = False\<rparr>"
              example_seed example_rng]
  by (simp add: numeral_2_eq_2)

text \<open>
  C7 as stated fails: on 0 attacking and -1 defending troops, one trial, \<open>main\<close>
  returns normally and has written one record.
\<close>

theorem main_invalid_troops_counterexample:
  "main example_seed
     \<lparr>args_attacking_troops = 0, args_defending_troops = - 1, args_capital = False,
      args_trials = 1, args_random_seed = 0, args_no_precomputed_rolls = True\<rparr>
     example_rng
   = Some (Inr ([(0, 0, 0, 0, 0)], example_rng))"
proof -
  have "\<not> loop_guard (initial_battle 0 (- 1))"
    by (simp add: loop_guard_def initial_battle_def)
  then have "trial_loop 2 [] 0 (- 1) 1 example_rng
             = Some (Inr (replicate 1 (0, 0, 0, 0, 0), example_rng))"
    by (rule trial_loop_no_round)
  then show ?thesis by (simp add: main_def)
qed


end
